theory Spec2Isabelle
  imports Complex_Main
begin

section \<open>JavaScript values used by the engine\<close>

text \<open>
  The sources are TypeScript; what runs is JavaScript. Three facts of the language are
  written into the model because the code depends on them.

  \<^item> A number is modelled as \<open>int option\<close>: \<open>Some n\<close> is the integer \<open>n\<close>, \<open>None\<close> is
    any value that is not an integer pitch (\<open>NaN\<close>, which arithmetic on \<open>undefined\<close>
    yields, or the string that \<open>+\<close> builds from a non-numeric operand).
  \<^item> \<open>a % b\<close> truncates towards zero: its sign is the sign of \<open>a\<close>.
  \<^item> \<open>obj[k]\<close> on an object literal finds the literal's own keys first and then the
    members every object inherits from \<open>Object.prototype\<close>; only when both fail is the
    result \<open>undefined\<close>, the one case (with \<open>null\<close>) in which \<open>??\<close> takes its right operand.
\<close>

datatype error = TypeError

definition js_add :: "int option \<Rightarrow> int option \<Rightarrow> int option" where
  "js_add a b = (case (a, b) of (Some x, Some y) \<Rightarrow> Some (x + y) | _ \<Rightarrow> None)"

definition js_rem :: "int \<Rightarrow> int \<Rightarrow> int" where
  \<comment> \<open>\<open>a % b\<close> for a positive divisor \<open>b\<close> (the callers pass 12 or a non-zero length)\<close>
  "js_rem a b = (if a < 0 then - ((- a) mod b) else a mod b)"

definition array_get :: "int list \<Rightarrow> int \<Rightarrow> int option" where
  \<comment> \<open>\<open>xs[i]\<close>: \<open>undefined\<close> outside the array, and \<open>undefined\<close> in arithmetic is \<open>NaN\<close>\<close>
  "array_get xs i = (if 0 \<le> i \<and> i < int (length xs) then Some (xs ! nat i) else None)"

definition object_prototype_keys :: "string list" where
  "object_prototype_keys =
     [''constructor'', ''__defineGetter__'', ''__defineSetter__'', ''hasOwnProperty'',
      ''__lookupGetter__'', ''__lookupSetter__'', ''isPrototypeOf'',
      ''propertyIsEnumerable'', ''toString'', ''valueOf'', ''__proto__'',
      ''toLocaleString'']"

datatype 'a property = Own 'a | Inherited | Undefined

definition obj_get :: "(string \<times> 'a) list \<Rightarrow> string \<Rightarrow> 'a property" where
  "obj_get tbl k =
     (case map_of tbl k of
        Some v \<Rightarrow> Own v
      | None \<Rightarrow> if List.member object_prototype_keys k then Inherited else Undefined)"

section \<open>Harmony manager (src/core/harmony.ts)\<close>

subsection \<open>Tables\<close>

definition MIDDLE_C :: int where
  "MIDDLE_C = 60"

definition NOTE_MAP :: "(string \<times> int) list" where
  "NOTE_MAP =
     [(''C'', 0), (''C#'', 1), (''Db'', 1), (''D'', 2), (''D#'', 3), (''Eb'', 3), (''E'', 4),
      (''F'', 5), (''F#'', 6), (''Gb'', 6), (''G'', 7), (''G#'', 8), (''Ab'', 8), (''A'', 9),
      (''A#'', 10), (''Bb'', 10), (''B'', 11)]"

definition MODES_major :: "int list" where
  "MODES_major = [0, 2, 4, 5, 7, 9, 11]"

definition MODES_minor :: "int list" where
  "MODES_minor = [0, 2, 3, 5, 7, 8, 10]"

definition MODES :: "(string \<times> int list) list" where
  "MODES =
     [(''major'', MODES_major),
      (''lydian'', [0, 2, 4, 6, 7, 9, 11]),
      (''mixolydian'', [0, 2, 4, 5, 7, 9, 10]),
      (''minor'', MODES_minor),
      (''dorian'', [0, 2, 3, 5, 7, 9, 10]),
      (''phrygian'', [0, 1, 3, 5, 7, 8, 10]),
      (''pentatonic_major'', [0, 2, 4, 7, 9]),
      (''pentatonic_minor'', [0, 3, 5, 7, 10])]"

datatype chord_type = Major | Minor | Diminished

definition ROMAN_TO_DEGREE :: "(string \<times> int \<times> chord_type) list" where
  \<comment> \<open>the fifteenth key is spelled in the file with the two characters U+00C2 U+00B0\<close>
  "ROMAN_TO_DEGREE =
     [(''I'', 0, Major), (''II'', 1, Major), (''III'', 2, Major), (''IV'', 3, Major),
      (''V'', 4, Major), (''VI'', 5, Major), (''VII'', 6, Major),
      (''i'', 0, Minor), (''ii'', 1, Minor), (''iii'', 2, Minor), (''iv'', 3, Minor),
      (''v'', 4, Minor), (''vi'', 5, Minor), (''vii'', 6, Minor),
      (''vii'' @ [CHR 0xC2, CHR 0xB0], 6, Diminished), (''viio'', 6, Diminished)]"

subsection \<open>State\<close>

text \<open>
  One record holds the fields of a \<open>HarmonyManager\<close> instance: the five fields of
  \<open>this.state\<close> and the private \<open>rootNote\<close> and \<open>chordPool\<close>. \<open>scale = None\<close> stands
  for a scale that cannot be read (\<open>this.state.scale\<close> is \<open>undefined\<close>): reading its
  \<open>length\<close> or its first element throws a \<open>TypeError\<close>.
\<close>

record harmony =
  key :: string
  mode :: string
  scale :: "int list option"
  chord :: "int option list"
  isLocked :: bool
  rootNote :: "int option"
  chordPool :: "string list"

datatype ModulationType = Relative | Dominant | Subdominant

subsection \<open>Scale degree to MIDI conversion\<close>

definition getScaleNote :: "harmony \<Rightarrow> int \<Rightarrow> int \<Rightarrow> error + int option" where
  "getScaleNote h degree octave =
     (case scale h of
        None \<Rightarrow> Inl TypeError
      | Some sc \<Rightarrow>
          let scaleLength = int (length sc) in
          if scaleLength = 0 then Inr None
          else
            let octaveOffset = degree div scaleLength;
                scaleDegree = js_rem degree scaleLength;
                baseNote = MIDDLE_C + (octave - 4) * 12;
                noteOffset = js_add (rootNote h) (array_get sc scaleDegree)
            in Inr (js_add (js_add (Some baseNote) noteOffset) (Some (octaveOffset * 12))))"

definition quantize_step :: "int \<Rightarrow> int \<Rightarrow> int \<times> int \<Rightarrow> int \<times> int" where
  \<comment> \<open>the body of the \<open>for\<close> loop, on the pair \<open>(nearest, minDiff)\<close>\<close>
  "quantize_step keyOffset interval acc =
     (let diff = \<bar>keyOffset - interval\<bar>
      in if diff < snd acc then (interval, diff) else acc)"

definition quantizeToScale :: "harmony \<Rightarrow> int \<Rightarrow> error + int option" where
  "quantizeToScale h note =
     (case scale h of
        None \<Rightarrow> Inl TypeError
      | Some sc \<Rightarrow>
          let octave = note div 12 - 1;
              semitone = js_rem note 12
          in (case (rootNote h, sc) of
                (Some r, first # _) \<Rightarrow>
                  let keyOffset = js_rem (semitone - r + 12) 12;
                      nearest = fst (fold (quantize_step keyOffset) sc
                                       (first, \<bar>keyOffset - first\<bar>))
                  in Inr (Some (octave * 12 + 12 + r + nearest))
              | _ \<Rightarrow> Inr None))"

subsection \<open>Chords\<close>

definition stackTriad :: "harmony \<Rightarrow> int \<Rightarrow> int \<Rightarrow> error + int option list" where
  \<comment> \<open>the array literal \<open>[root, getScaleNote(degree + 2), getScaleNote(degree + 4)]\<close>\<close>
  "stackTriad h degree octave =
     (case getScaleNote h degree octave of
        Inl e \<Rightarrow> Inl e
      | Inr root_note \<Rightarrow>
          (case getScaleNote h (degree + 2) octave of
             Inl e \<Rightarrow> Inl e
           | Inr third \<Rightarrow>
               (case getScaleNote h (degree + 4) octave of
                  Inl e \<Rightarrow> Inl e
                | Inr fifth \<Rightarrow> Inr [root_note, third, fifth])))"

definition buildFound :: "harmony \<Rightarrow> int \<times> chord_type \<Rightarrow> int \<Rightarrow> error + int option list" where
  \<comment> \<open>the part of \<open>buildChord\<close> after the label was found: three branches, one construction\<close>
  "buildFound h chordInfo octave =
     (case chordInfo of
        (degree, Major) \<Rightarrow> stackTriad h degree octave
      | (degree, Minor) \<Rightarrow> stackTriad h degree octave
      | (degree, Diminished) \<Rightarrow> stackTriad h degree octave)"

definition buildChord :: "harmony \<Rightarrow> string \<Rightarrow> int \<Rightarrow> error + int option list" where
  \<comment> \<open>An unknown label calls \<open>buildChord('I', octave)\<close>, and \<open>'I'\<close> is a key of the table.
     An inherited member is truthy: its \<open>degree\<close> and \<open>type\<close> are \<open>undefined\<close>, every
     note is \<open>NaN\<close> and the last branch builds the array.\<close>
  "buildChord h roman octave =
     (case obj_get ROMAN_TO_DEGREE roman of
        Undefined \<Rightarrow>
          (case obj_get ROMAN_TO_DEGREE ''I'' of
             Own chordInfo \<Rightarrow> buildFound h chordInfo octave
           | _ \<Rightarrow> Inl TypeError)
      | Inherited \<Rightarrow>
          (case scale h of None \<Rightarrow> Inl TypeError | Some _ \<Rightarrow> Inr [None, None, None])
      | Own chordInfo \<Rightarrow> buildFound h chordInfo octave)"

definition getChord :: "harmony \<Rightarrow> string \<Rightarrow> int \<Rightarrow> error + int option list" where
  "getChord h roman octave = buildChord h roman octave"

definition setChord :: "int option list \<Rightarrow> harmony \<Rightarrow> harmony" where
  "setChord notes h = h\<lparr>chord := notes\<rparr>"

definition setChordFromRoman :: "string \<Rightarrow> int \<Rightarrow> harmony \<Rightarrow> error + harmony" where
  "setChordFromRoman roman octave h =
     (if \<not> isLocked h then
        (case buildChord h roman octave of
           Inl e \<Rightarrow> Inl e
         | Inr c \<Rightarrow> Inr (h\<lparr>chord := c\<rparr>))
      else Inr h)"

subsection \<open>Key and scale management\<close>

definition lookupRoot :: "string \<Rightarrow> int option" where
  \<comment> \<open>\<open>NOTE_MAP[key] ?? 0\<close>\<close>
  "lookupRoot k = (case obj_get NOTE_MAP k of Own v \<Rightarrow> Some v | Inherited \<Rightarrow> None | Undefined \<Rightarrow> Some 0)"

definition lookupIntervals :: "string \<Rightarrow> int list option" where
  \<comment> \<open>\<open>(MODES[mode] ?? MODES.major).intervals\<close>: an inherited member has no \<open>intervals\<close>\<close>
  "lookupIntervals m = (case obj_get MODES m of Own v \<Rightarrow> Some v | Inherited \<Rightarrow> None | Undefined \<Rightarrow> Some MODES_major)"

definition setKey :: "string \<Rightarrow> string \<Rightarrow> harmony \<Rightarrow> (error \<times> harmony) + harmony" where
  \<comment> \<open>on a throw the instance keeps the assignments made before it: \<open>Inl (e, h)\<close>\<close>
  "setKey k m h =
     (let h1 = h\<lparr>rootNote := lookupRoot k\<rparr>;
          h2 = h1\<lparr>key := k, mode := m, scale := lookupIntervals m\<rparr>
      in if \<not> isLocked h2 then
           (case buildChord h2 ''I'' 4 of
              Inl e \<Rightarrow> Inl (e, h2)
            | Inr c \<Rightarrow> Inr (h2\<lparr>chord := c\<rparr>))
         else Inr h2)"

definition setScale :: "int list \<Rightarrow> harmony \<Rightarrow> harmony" where
  "setScale intervals h = h\<lparr>scale := Some intervals, mode := ''custom''\<rparr>"

definition lockHarmony :: "harmony \<Rightarrow> harmony" where
  "lockHarmony h = h\<lparr>isLocked := True\<rparr>"

definition unlockHarmony :: "harmony \<Rightarrow> harmony" where
  "unlockHarmony h = h\<lparr>isLocked := False\<rparr>"

definition setChordPool :: "string list \<Rightarrow> harmony \<Rightarrow> harmony" where
  "setChordPool chords h = h\<lparr>chordPool := chords\<rparr>"

subsection \<open>Modulation\<close>

definition shiftRoot :: "int \<Rightarrow> int option \<Rightarrow> int option" where
  \<comment> \<open>\<open>(this.rootNote + n) % 12\<close>\<close>
  "shiftRoot n r = (case r of Some x \<Rightarrow> Some (js_rem (x + n) 12) | None \<Rightarrow> None)"

definition updateKeyName :: "harmony \<Rightarrow> harmony" where
  "updateKeyName h =
     (case find (\<lambda>(name, value). Some value = rootNote h
                    \<and> \<not> List.member name CHR ''#'' \<and> \<not> List.member name CHR ''b'') NOTE_MAP of
        Some (name, _) \<Rightarrow> h\<lparr>key := name\<rparr>
      | None \<Rightarrow>
          (case find (\<lambda>(name, value). Some value = rootNote h) NOTE_MAP of
             Some (name, _) \<Rightarrow> h\<lparr>key := name\<rparr>
           | None \<Rightarrow> h))"

definition modulateRelative :: "harmony \<Rightarrow> harmony" where
  "modulateRelative h =
     updateKeyName
       (if mode h = ''major'' then
          h\<lparr>rootNote := shiftRoot 9 (rootNote h), mode := ''minor'', scale := Some MODES_minor\<rparr>
        else if mode h = ''minor'' then
          h\<lparr>rootNote := shiftRoot 3 (rootNote h), mode := ''major'', scale := Some MODES_major\<rparr>
        else h)"

definition modulateDominant :: "harmony \<Rightarrow> harmony" where
  "modulateDominant h = updateKeyName (h\<lparr>rootNote := shiftRoot 7 (rootNote h)\<rparr>)"

definition modulateSubdominant :: "harmony \<Rightarrow> harmony" where
  "modulateSubdominant h = updateKeyName (h\<lparr>rootNote := shiftRoot 5 (rootNote h)\<rparr>)"

fun modulate :: "ModulationType \<Rightarrow> harmony \<Rightarrow> harmony" where
  "modulate Relative h = modulateRelative h"
| "modulate Dominant h = modulateDominant h"
| "modulate Subdominant h = modulateSubdominant h"

subsection \<open>Construction\<close>

text \<open>
  The constructor assigns \<open>rootNote\<close>, then evaluates the object literal for \<open>this.state\<close>,
  whose \<open>chord\<close> entry calls \<open>buildChord('I', 4)\<close> while \<open>this.state\<close> is still unassigned:
  the scale cannot be read at that moment. The instance seen by that call is \<open>this0\<close>.
\<close>

definition new_HarmonyManager :: "string \<Rightarrow> string \<Rightarrow> error + harmony" where
  "new_HarmonyManager k m =
     (let this0 = \<lparr>key = k, mode = m, scale = None, chord = [], isLocked = False,
                   rootNote = lookupRoot k, chordPool = [''I'', ''IV'', ''V'', ''vi'']\<rparr>
      in (case buildChord this0 ''I'' 4 of
            Inl e \<Rightarrow> Inl e
          | Inr c \<Rightarrow> Inr (this0\<lparr>scale := lookupIntervals m, chord := c\<rparr>)))"

text \<open>
  An instance given field by field: a key name, a mode name, a root pitch class, a scale
  and a stored chord; unlocked, with the default chord pool.
\<close>

definition instance_of :: "string \<Rightarrow> string \<Rightarrow> int \<Rightarrow> int list \<Rightarrow> int option list \<Rightarrow> harmony" where
  "instance_of k m r sc c =
     \<lparr>key = k, mode = m, scale = Some sc, chord = c, isLocked = False,
      rootNote = Some r, chordPool = [''I'', ''IV'', ''V'', ''vi'']\<rparr>"

definition c_major :: harmony where
  "c_major = instance_of ''C'' ''major'' 0 MODES_major [Some 60, Some 64, Some 67]"

definition g_major :: harmony where
  "g_major = instance_of ''G'' ''major'' 7 MODES_major [Some 67, Some 71, Some 74]"

definition c_major_ii :: harmony where
  \<comment> \<open>C major after \<open>setChordFromRoman('ii', 4)\<close>\<close>
  "c_major_ii = instance_of ''C'' ''major'' 0 MODES_major [Some 62, Some 65, Some 69]"

subsection \<open>Sequences of calls\<close>

datatype harmony_op =
    SetKey string string
  | SetScale "int list"
  | SetChord "int option list"
  | SetChordFromRoman string int
  | LockHarmony
  | UnlockHarmony
  | Modulate ModulationType
  | SetChordPool "string list"

fun apply_op :: "harmony_op \<Rightarrow> harmony \<Rightarrow> harmony" where
  \<comment> \<open>the instance after the call, also when the call throws\<close>
  "apply_op (SetKey k m) h = (case setKey k m h of Inl (e, h') \<Rightarrow> h' | Inr h' \<Rightarrow> h')"
| "apply_op (SetScale intervals) h = setScale intervals h"
| "apply_op (SetChord notes) h = setChord notes h"
| "apply_op (SetChordFromRoman roman octave) h =
     (case setChordFromRoman roman octave h of Inl e \<Rightarrow> h | Inr h' \<Rightarrow> h')"
| "apply_op LockHarmony h = lockHarmony h"
| "apply_op UnlockHarmony h = unlockHarmony h"
| "apply_op (Modulate t) h = modulate t h"
| "apply_op (SetChordPool chords) h = setChordPool chords h"

subsection \<open>The closed form the specification gives for \<open>getScaleNote\<close>\<close>

definition scaleNote_formula :: "int \<Rightarrow> int list \<Rightarrow> int \<Rightarrow> int \<Rightarrow> int" where
  \<comment> \<open>\<open>60 + (octave - 4) * 12 + root + scale[degree mod len] + 12 * floor(degree / len)\<close>\<close>
  "scaleNote_formula r sc degree octave =
     60 + (octave - 4) * 12 + r + sc ! nat (degree mod int (length sc))
       + 12 * (degree div int (length sc))"

section \<open>Synth engine (class SynthEngine)\<close>

text \<open>
  The engine talks to three things outside itself: the Tone.js synths it creates, the
  audio clock \<open>Tone.now()\<close> and the timers of \<open>setTimeout\<close>. The model makes each explicit:
  every call on a synth is appended to \<open>backend\<close>, the clock value of a call is its
  argument \<open>now\<close>, and a scheduled callback waits in \<open>timers\<close> (delay in milliseconds and
  the voice id it will clean up) until \<open>fireTimer\<close> runs it. A synth is named by the counter
  value of the voice it was created for. Times and velocities are real numbers; the
  frequency handed to a synth is represented by the MIDI note it is computed from. The
  model covers an engine on which no \<open>onNotePlay\<close> callback is registered.
\<close>

datatype duration = Seconds real | Notation string

datatype synth_event =
    Create nat string
  | Connect nat
  | TriggerAttackRelease nat int duration real real
  | TriggerAttack nat int real real
  | TriggerRelease nat real
  | Dispose nat

record ActiveVoice =
  vid :: string
  synth :: nat
  startTime :: real
  midi_note :: int
  velocity :: real

record engine =
  polyphony :: int
  voices :: "string list"
  activeVoices :: "(string \<times> ActiveVoice) list"
  nextVoiceId :: nat
  isInitialized :: bool
  timers :: "(real \<times> string) list"
  backend :: "synth_event list"

subsection \<open>The insertion-ordered Map\<close>

fun map_set :: "string \<Rightarrow> 'v \<Rightarrow> (string \<times> 'v) list \<Rightarrow> (string \<times> 'v) list" where
  "map_set k v [] = [(k, v)]"
| "map_set k v (p # ps) = (if fst p = k then (k, v) # ps else p # map_set k v ps)"

fun map_delete :: "string \<Rightarrow> (string \<times> 'v) list \<Rightarrow> (string \<times> 'v) list" where
  "map_delete k [] = []"
| "map_delete k (p # ps) = (if fst p = k then map_delete k ps else p # map_delete k ps)"

subsection \<open>Voice identifiers\<close>

definition digit_char :: "nat \<Rightarrow> char" where
  "digit_char d = char_of (48 + d)"

fun string_of_nat :: "nat \<Rightarrow> string" where
  "string_of_nat n =
     (if n < 10 then [digit_char n] else string_of_nat (n div 10) @ [digit_char (n mod 10)])"

definition voiceId_of :: "nat \<Rightarrow> string" where
  \<comment> \<open>the template \<open>voice_${n}\<close>\<close>
  "voiceId_of n = ''voice_'' @ string_of_nat n"

subsection \<open>Construction and registration\<close>

definition new_SynthEngine :: "int option \<Rightarrow> engine" where
  \<comment> \<open>\<open>config.polyphony ?? 16\<close>\<close>
  "new_SynthEngine p =
     \<lparr>polyphony = (case p of Some n \<Rightarrow> n | None \<Rightarrow> 16), voices = [], activeVoices = [],
      nextVoiceId = 0, isInitialized = False, timers = [], backend = []\<rparr>"

definition init :: "engine \<Rightarrow> engine" where
  "init st = (if isInitialized st then st else st\<lparr>isInitialized := True\<rparr>)"

definition registerVoice :: "string \<Rightarrow> engine \<Rightarrow> engine" where
  "registerVoice name st = st\<lparr>voices := List.insert name (voices st)\<rparr>"

subsection \<open>Stopping and cleaning up\<close>

definition stopNote_default_releaseTime :: real where
  "stopNote_default_releaseTime = 0.1"

definition stopNote :: "real \<Rightarrow> string \<Rightarrow> real \<Rightarrow> engine \<Rightarrow> engine" where
  "stopNote now voiceId releaseTime st =
     (case map_of (activeVoices st) voiceId of
        None \<Rightarrow> st
      | Some voice \<Rightarrow>
          st\<lparr>backend := backend st @ [TriggerRelease (synth voice) (now + releaseTime)],
             timers := timers st @ [((releaseTime + 1) * 1000, voiceId)]\<rparr>)"

definition stopAllNotes :: "real \<Rightarrow> engine \<Rightarrow> engine" where
  "stopAllNotes now st =
     fold (\<lambda>voiceId. stopNote now voiceId stopNote_default_releaseTime)
       (map fst (activeVoices st)) st"

definition cleanupVoice :: "string \<Rightarrow> engine \<Rightarrow> engine" where
  "cleanupVoice voiceId st =
     (case map_of (activeVoices st) voiceId of
        None \<Rightarrow> st
      | Some voice \<Rightarrow>
          st\<lparr>backend := backend st @ [Dispose (synth voice)],
             activeVoices := map_delete voiceId (activeVoices st)\<rparr>)"

definition fireTimer :: "nat \<Rightarrow> engine \<Rightarrow> engine" where
  \<comment> \<open>the pending callback at position \<open>i\<close> runs: it leaves the queue and cleans its voice up\<close>
  "fireTimer i st =
     (if i < length (timers st) then
        cleanupVoice (snd (timers st ! i))
          (st\<lparr>timers := take i (timers st) @ drop (Suc i) (timers st)\<rparr>)
      else st)"

subsection \<open>Voice stealing\<close>

definition steal_step ::
  "string \<times> ActiveVoice \<Rightarrow> string option \<times> real option \<Rightarrow> string option \<times> real option" where
  \<comment> \<open>the loop body on \<open>(oldestId, oldestTime)\<close>; the time \<open>None\<close> is \<open>Infinity\<close>\<close>
  "steal_step entry acc =
     (case snd acc of
        None \<Rightarrow> (Some (fst entry), Some (startTime (snd entry)))
      | Some oldestTime \<Rightarrow>
          if startTime (snd entry) < oldestTime
          then (Some (fst entry), Some (startTime (snd entry)))
          else acc)"

definition stealVoice :: "real \<Rightarrow> engine \<Rightarrow> engine" where
  \<comment> \<open>\<open>if (oldestId)\<close> is false for \<open>null\<close> and for the empty string\<close>
  "stealVoice now st =
     (case fst (fold steal_step (activeVoices st) (None, None)) of
        None \<Rightarrow> st
      | Some oldestId \<Rightarrow> if oldestId = [] then st else stopNote now oldestId 0.05 st)"

subsection \<open>Note playback\<close>

definition durationSeconds :: "(string \<Rightarrow> real) \<Rightarrow> duration \<Rightarrow> real" where
  \<comment> \<open>\<open>toSeconds\<close> stands for \<open>Tone.Time(duration).toSeconds()\<close>\<close>
  "durationSeconds toSeconds d = (case d of Seconds x \<Rightarrow> x | Notation s \<Rightarrow> toSeconds s)"

definition playNote ::
  "(string \<Rightarrow> real) \<Rightarrow> real \<Rightarrow> int \<Rightarrow> real \<Rightarrow> duration option \<Rightarrow> string \<Rightarrow> engine
     \<Rightarrow> string \<times> engine" where
  "playNote toSeconds now n vel dur voiceName st =
     (if \<not> isInitialized st then ([], st)
      else
        let st1 = (if polyphony st \<le> int (length (activeVoices st))
                   then stealVoice now st else st)
        in if \<not> List.member (voices st1) voiceName then ([], st1)
           else
             let h = nextVoiceId st1;
                 voiceId = voiceId_of h;
                 st2 = st1\<lparr>backend := backend st1 @ [Create h voiceName, Connect h],
                           nextVoiceId := h + 1\<rparr>;
                 st3 = st2\<lparr>activeVoices :=
                             map_set voiceId
                               \<lparr>vid = voiceId, synth = h, startTime = now,
                                midi_note = n, velocity = vel\<rparr>
                               (activeVoices st2)\<rparr>
             in (case dur of
                   Some d \<Rightarrow>
                     (voiceId,
                      st3\<lparr>backend := backend st3 @ [TriggerAttackRelease h n d now vel],
                          timers := timers st3
                            @ [(durationSeconds toSeconds d * 1000 + 100, voiceId)]\<rparr>)
                 | None \<Rightarrow>
                     (voiceId, st3\<lparr>backend := backend st3 @ [TriggerAttack h n now vel]\<rparr>)))"

definition getActiveVoiceCount :: "engine \<Rightarrow> nat" where
  "getActiveVoiceCount st = length (activeVoices st)"

subsection \<open>Example engines\<close>

definition notation_seconds :: "string \<Rightarrow> real" where
  "notation_seconds s = 0"

definition ready_engine :: "int \<Rightarrow> engine" where
  "ready_engine p = init (registerVoice ''synth'' (new_SynthEngine (Some p)))"

definition sustain :: "real \<Rightarrow> int \<Rightarrow> engine \<Rightarrow> engine" where
  \<comment> \<open>a sustained note on the voice \<open>synth\<close>, keeping the new state\<close>
  "sustain now n st = snd (playNote notation_seconds now n 0.7 None ''synth'' st)"

definition one_voice :: engine where
  \<comment> \<open>ceiling 1, reached by one sustained note at time 0\<close>
  "one_voice = sustain 0 60 (ready_engine 1)"

definition three_voices :: engine where
  \<comment> \<open>ceiling 3, reached by voices allocated at the timestamps 5, 2 and 9\<close>
  "three_voices = sustain 9 67 (sustain 2 64 (sustain 5 60 (ready_engine 3)))"

section \<open>Facts about the harmony manager\<close>

lemmas js_defs = js_add_def js_rem_def array_get_def obj_get_def object_prototype_keys_def
lemmas table_defs =
  MIDDLE_C_def NOTE_MAP_def MODES_def MODES_major_def MODES_minor_def ROMAN_TO_DEGREE_def
lemmas chord_defs = getScaleNote_def stackTriad_def buildFound_def buildChord_def getChord_def
lemmas example_defs = c_major_def g_major_def c_major_ii_def instance_of_def

subsection \<open>The constructor\<close>

text \<open>
  As written, the constructor cannot return: building the first chord reads the scale of a
  state that is not assigned yet. The instances used below are therefore given field by
  field (\<open>instance_of\<close>), or reached from one another by \<open>setKey\<close>.
\<close>

lemma new_HarmonyManager_throws: "new_HarmonyManager k m = Inl TypeError"
  by (simp add: new_HarmonyManager_def buildChord_def buildFound_def stackTriad_def
      getScaleNote_def obj_get_def ROMAN_TO_DEGREE_def)

subsection \<open>Lookups\<close>

lemma roman_degree:
  "obj_get ROMAN_TO_DEGREE roman = Own (d, t) \<Longrightarrow> d \<in> {0, 1, 2, 3, 4, 5, 6}"
  by (auto simp: obj_get_def ROMAN_TO_DEGREE_def split: if_splits)

lemma roman_I: "obj_get ROMAN_TO_DEGREE ''I'' = Own (0, Major)"
  by (simp add: obj_get_def ROMAN_TO_DEGREE_def)

lemma buildFound_stackTriad: "buildFound h (d, t) oct = stackTriad h d oct"
  by (cases t) (simp_all add: buildFound_def)

lemma buildChord_cases:
  assumes "buildChord h roman oct = Inr c"
  shows "c = [None, None, None] \<or> (\<exists>d \<in> {0, 1, 2, 3, 4, 5, 6}. stackTriad h d oct = Inr c)"
proof (cases "obj_get ROMAN_TO_DEGREE roman")
  case (Own info)
  obtain d t where info: "info = (d, t)" by (cases info)
  with Own assms have "stackTriad h d oct = Inr c"
    by (simp add: buildChord_def buildFound_stackTriad)
  moreover from Own info have "d \<in> {0, 1, 2, 3, 4, 5, 6}"
    using roman_degree by blast
  ultimately show ?thesis by blast
next
  case Inherited
  with assms show ?thesis
    by (simp add: buildChord_def split: option.splits)
next
  case Undefined
  with assms have "stackTriad h 0 oct = Inr c"
    by (simp add: buildChord_def roman_I buildFound_stackTriad)
  then show ?thesis by blast
qed

subsection \<open>The chord field is not read when a chord is built\<close>

lemma getScaleNote_chord_update:
  "getScaleNote (h\<lparr>chord := c\<rparr>) d oct = getScaleNote h d oct"
  by (simp add: getScaleNote_def Let_def split: option.splits)

lemma stackTriad_chord_update: "stackTriad (h\<lparr>chord := c\<rparr>) d oct = stackTriad h d oct"
  unfolding stackTriad_def getScaleNote_chord_update by (rule refl)

lemma buildFound_chord_update:
  "buildFound (h\<lparr>chord := c\<rparr>) info oct = buildFound h info oct"
  unfolding buildFound_def stackTriad_chord_update by (rule refl)

lemma scale_chord_update: "scale (h\<lparr>chord := c\<rparr>) = scale h"
  by simp

lemma buildChord_chord_update:
  "buildChord (h\<lparr>chord := c\<rparr>) roman oct = buildChord h roman oct"
  unfolding buildChord_def buildFound_chord_update scale_chord_update by (rule refl)

subsection \<open>Degrees that are not negative\<close>

lemma getScaleNote_nonneg:
  assumes "scale h = Some sc" "sc \<noteq> []" "rootNote h = Some r" "0 \<le> degree"
  shows "getScaleNote h degree oct = Inr (Some (scaleNote_formula r sc degree oct))"
proof -
  have len: "0 < int (length sc)" using assms(2) by simp
  have idx: "0 \<le> degree mod int (length sc)" "degree mod int (length sc) < int (length sc)"
    using len by simp_all
  show ?thesis
    using assms idx
    by (simp add: getScaleNote_def Let_def js_rem_def js_add_def array_get_def
        scaleNote_formula_def MIDDLE_C_def)
qed

lemma stackTriad_nonneg:
  assumes "scale h = Some sc" "sc \<noteq> []" "rootNote h = Some r" "0 \<le> d"
  shows "stackTriad h d oct =
           Inr [Some (scaleNote_formula r sc d oct), Some (scaleNote_formula r sc (d + 2) oct),
                Some (scaleNote_formula r sc (d + 4) oct)]"
  using assms by (simp add: stackTriad_def getScaleNote_nonneg)

subsection \<open>Modulation keeps everything but root, mode, scale and key name\<close>

lemma rootNote_updateKeyName: "rootNote (updateKeyName h) = rootNote h"
  by (simp add: updateKeyName_def split: option.splits prod.splits)

lemma isLocked_updateKeyName: "isLocked (updateKeyName h) = isLocked h"
  by (simp add: updateKeyName_def split: option.splits prod.splits)

lemma isLocked_modulate: "isLocked (modulate t h) = isLocked h"
  by (cases t)
     (simp_all add: modulateRelative_def modulateDominant_def modulateSubdominant_def
        isLocked_updateKeyName)

subsection \<open>Locking\<close>

lemma isLocked_apply_op:
  "isLocked h \<Longrightarrow> op \<noteq> UnlockHarmony \<Longrightarrow> isLocked (apply_op op h)"
  by (cases op)
     (auto simp: setKey_def setScale_def setChord_def setChordFromRoman_def lockHarmony_def
        setChordPool_def isLocked_modulate Let_def
        split: sum.splits)

lemma isLocked_fold:
  "isLocked h \<Longrightarrow> UnlockHarmony \<notin> set ops \<Longrightarrow> isLocked (fold apply_op ops h)"
  by (induction ops arbitrary: h) (auto simp: isLocked_apply_op)

lemma setKey_locked:
  "isLocked h \<Longrightarrow>
   setKey k m h
     = Inr (h\<lparr>rootNote := lookupRoot k, key := k, mode := m, scale := lookupIntervals m\<rparr>)"
  by (simp add: setKey_def Let_def)

lemma setKey_unlocked_chord:
  "\<not> isLocked h \<Longrightarrow> setKey k m h = Inr h' \<Longrightarrow> Inr (chord h') = buildChord h' ''I'' 4"
  by (auto simp: setKey_def Let_def buildChord_chord_update split: sum.splits)

subsection \<open>When building a chord returns\<close>

lemma stackTriad_total: "scale h = Some sc \<Longrightarrow> \<exists>c. stackTriad h d oct = Inr c"
  by (simp add: stackTriad_def getScaleNote_def Let_def)

lemma buildChord_total: "scale h = Some sc \<Longrightarrow> \<exists>c. buildChord h roman oct = Inr c"
  using stackTriad_total [of h sc]
  by (cases "obj_get ROMAN_TO_DEGREE roman")
     (auto simp: buildChord_def roman_I buildFound_stackTriad)

lemma lookupIntervals_Some:
  "obj_get MODES m \<noteq> Inherited \<Longrightarrow> \<exists>sc. lookupIntervals m = Some sc"
  by (cases "obj_get MODES m") (simp_all add: lookupIntervals_def)

lemma setKey_returns:
  assumes "obj_get MODES m \<noteq> Inherited"
  shows "\<exists>h'. setKey k m h = Inr h'"
proof -
  from assms obtain sc where sc: "lookupIntervals m = Some sc"
    using lookupIntervals_Some by blast
  then obtain c where
    "buildChord (h\<lparr>rootNote := lookupRoot k, key := k, mode := m, scale := lookupIntervals m\<rparr>)
       ''I'' 4 = Inr c"
    using buildChord_total
      [of "h\<lparr>rootNote := lookupRoot k, key := k, mode := m, scale := lookupIntervals m\<rparr>" sc]
    by auto
  then show ?thesis by (simp add: setKey_def Let_def)
qed

text \<open>Names that are no member of any object do fall back to the defaults.\<close>

lemma lookup_defaults:
  assumes "\<not> List.member object_prototype_keys name"
  shows "map_of NOTE_MAP name = None \<Longrightarrow> lookupRoot name = Some 0"
    and "map_of MODES name = None \<Longrightarrow> lookupIntervals name = Some MODES_major"
    and "map_of ROMAN_TO_DEGREE name = None \<Longrightarrow> buildChord h name oct = stackTriad h 0 oct"
proof -
  show "map_of NOTE_MAP name = None \<Longrightarrow> lookupRoot name = Some 0"
    using assms by (simp add: lookupRoot_def obj_get_def)
  show "map_of MODES name = None \<Longrightarrow> lookupIntervals name = Some MODES_major"
    using assms by (simp add: lookupIntervals_def obj_get_def)
  show "buildChord h name oct = stackTriad h 0 oct" if "map_of ROMAN_TO_DEGREE name = None"
  proof -
    have "obj_get ROMAN_TO_DEGREE name = Undefined"
      using assms that by (simp add: obj_get_def)
    then show ?thesis
      by (simp add: buildChord_def roman_I buildFound_stackTriad)
  qed
qed

subsection \<open>The chord that is built from names and labels the tables know\<close>

lemma lookupRoot_pitch_class:
  "obj_get NOTE_MAP k \<noteq> Inherited \<Longrightarrow> \<exists>r. lookupRoot k = Some r \<and> 0 \<le> r \<and> r < 12"
  by (auto simp: lookupRoot_def obj_get_def NOTE_MAP_def split: if_splits)

lemma lookupIntervals_mode:
  "obj_get MODES m \<noteq> Inherited \<Longrightarrow> \<exists>sc. lookupIntervals m = Some sc \<and> sc \<noteq> []"
  by (auto simp: lookupIntervals_def obj_get_def MODES_def MODES_major_def MODES_minor_def
      split: if_splits)

lemma buildChord_own:
  assumes "obj_get ROMAN_TO_DEGREE roman = Own (d, t)"
    "scale h = Some sc" "sc \<noteq> []" "rootNote h = Some r"
  shows "buildChord h roman oct =
           Inr [Some (scaleNote_formula r sc d oct), Some (scaleNote_formula r sc (d + 2) oct),
                Some (scaleNote_formula r sc (d + 4) oct)]"
proof -
  have "0 \<le> d" using roman_degree [OF assms(1)] by auto
  then show ?thesis
    using assms by (simp add: buildChord_def buildFound_stackTriad stackTriad_nonneg)
qed

lemma buildChord_unknown:
  assumes "obj_get ROMAN_TO_DEGREE roman = Undefined"
    "scale h = Some sc" "sc \<noteq> []" "rootNote h = Some r"
  shows "buildChord h roman oct =
           Inr [Some (scaleNote_formula r sc 0 oct), Some (scaleNote_formula r sc (0 + 2) oct),
                Some (scaleNote_formula r sc (0 + 4) oct)]"
  using assms by (simp add: buildChord_def roman_I buildFound_stackTriad stackTriad_nonneg)

lemma setKey_stores_tonic:
  assumes "\<not> isLocked h" "lookupRoot k = Some r" "lookupIntervals m = Some sc" "sc \<noteq> []"
  shows "setKey k m h =
           Inr (h\<lparr>rootNote := Some r, key := k, mode := m, scale := Some sc,
                 chord := [Some (scaleNote_formula r sc 0 4), Some (scaleNote_formula r sc 2 4),
                           Some (scaleNote_formula r sc 4 4)]\<rparr>)"
proof -
  have "buildChord (h\<lparr>rootNote := Some r, key := k, mode := m, scale := Some sc\<rparr>) ''I'' 4
          = Inr [Some (scaleNote_formula r sc 0 4), Some (scaleNote_formula r sc (0 + 2) 4),
                 Some (scaleNote_formula r sc (0 + 4) 4)]"
    using assms(4) by (intro buildChord_own [OF roman_I]) simp_all
  then show ?thesis
    using assms(1,2,3) by (simp add: setKey_def Let_def)
qed

subsection \<open>States in which the stored chord is no triad of the key\<close>

lemma no_triad_after_setScale:
  assumes "stackTriad (setScale [0, 1, 2, 3, 4, 5, 6] c_major) d oct
             = Inr [Some 60, Some 64, Some 67]"
    and "d \<in> {0, 1, 2, 3, 4, 5, 6}"
  shows False
proof -
  have "0 \<le> d" using assms(2) by auto
  then have "stackTriad (setScale [0, 1, 2, 3, 4, 5, 6] c_major) d oct =
           Inr [Some (scaleNote_formula 0 [0, 1, 2, 3, 4, 5, 6] d oct),
                Some (scaleNote_formula 0 [0, 1, 2, 3, 4, 5, 6] (d + 2) oct),
                Some (scaleNote_formula 0 [0, 1, 2, 3, 4, 5, 6] (d + 4) oct)]"
    by (intro stackTriad_nonneg) (simp_all add: setScale_def example_defs)
  with assms(1) have
    "scaleNote_formula 0 [0, 1, 2, 3, 4, 5, 6] d oct = 60"
    "scaleNote_formula 0 [0, 1, 2, 3, 4, 5, 6] (d + 2) oct = 64"
    by simp_all
  with assms(2) show False
    by (elim insertE emptyE; simp add: scaleNote_formula_def; presburger)
qed

lemma modulated_ii:
  "modulateDominant c_major_ii
     = instance_of ''G'' ''major'' 7 MODES_major [Some 62, Some 65, Some 69]"
  by (simp add: modulateDominant_def updateKeyName_def shiftRoot_def js_rem_def
      NOTE_MAP_def example_defs)

lemma no_triad_after_modulate:
  assumes "stackTriad (modulate Dominant c_major_ii) d oct = Inr [Some 62, Some 65, Some 69]"
    and "d \<in> {0, 1, 2, 3, 4, 5, 6}"
  shows False
proof -
  have "0 \<le> d" using assms(2) by auto
  then have "stackTriad (modulate Dominant c_major_ii) d oct =
           Inr [Some (scaleNote_formula 7 MODES_major d oct),
                Some (scaleNote_formula 7 MODES_major (d + 2) oct),
                Some (scaleNote_formula 7 MODES_major (d + 4) oct)]"
    by (intro stackTriad_nonneg) (simp_all add: modulated_ii instance_of_def MODES_major_def)
  with assms(1) have
    "scaleNote_formula 7 MODES_major d oct = 62"
    "scaleNote_formula 7 MODES_major (d + 2) oct = 65"
    by simp_all
  with assms(2) show False
    by (elim insertE emptyE; simp add: scaleNote_formula_def MODES_major_def; presburger)
qed

lemma no_triad_after_setChord:
  assumes "stackTriad (setChord [Some 1, Some 2, Some 3] c_major) d oct
             = Inr [Some 1, Some 2, Some 3]"
    and "d \<in> {0, 1, 2, 3, 4, 5, 6}"
  shows False
proof -
  have "0 \<le> d" using assms(2) by auto
  then have "stackTriad (setChord [Some 1, Some 2, Some 3] c_major) d oct =
           Inr [Some (scaleNote_formula 0 MODES_major d oct),
                Some (scaleNote_formula 0 MODES_major (d + 2) oct),
                Some (scaleNote_formula 0 MODES_major (d + 4) oct)]"
    by (intro stackTriad_nonneg) (simp_all add: setChord_def example_defs MODES_major_def)
  with assms(1) have
    "scaleNote_formula 0 MODES_major d oct = 1"
    "scaleNote_formula 0 MODES_major (d + 2) oct = 2"
    by simp_all
  with assms(2) show False
    by (elim insertE emptyE; simp add: scaleNote_formula_def MODES_major_def; presburger)
qed

subsection \<open>Claims\<close>

text \<open>
  C3. The claim: for every root and mode, each note of \<open>getChord('I', 4)\<close> is a fixed point
  of \<open>quantizeToScale\<close>. The code at G major: \<open>setKey('G', 'major')\<close> leads from C major to
  G major, the tonic chord there is 67, 71, 74, and \<open>quantizeToScale(74)\<close> is 86, an octave
  above the chord tone it was given. The octave is taken from the note and the pitch class
  from root plus interval, which passes 12 here (7 + 7).
\<close>

theorem quantize_moves_chord_tone:
  "setKey ''G'' ''major'' c_major = Inr g_major \<and>
   getChord g_major ''I'' 4 = Inr [Some 67, Some 71, Some 74] \<and>
   quantizeToScale g_major 74 = Inr (Some 86)"
  by (simp add: setKey_def lookupRoot_def lookupIntervals_def chord_defs js_defs table_defs
      example_defs quantizeToScale_def quantize_step_def)

text \<open>
  C4. The claim: for every integer degree, negative ones included, \<open>getScaleNote\<close> equals
  the closed form \<open>scaleNote_formula\<close>. The code at degree -1 in C major, octave 4: the
  index is \<open>-1 % 7 = -1\<close>, the scale has no element there, and the result is not a number,
  where the closed form gives 59. (For degrees from 0 on the two agree:
  \<open>getScaleNote_nonneg\<close>.)
\<close>

theorem getScaleNote_negative_degree:
  "getScaleNote c_major (- 1) 4 = Inr None \<and> scaleNote_formula 0 MODES_major (- 1) 4 = 59"
  by (simp add: chord_defs js_defs table_defs example_defs scaleNote_formula_def)

text \<open>
  C9. \<open>modulate('dominant')\<close> moves a root pitch class \<open>r\<close> to \<open>(r + 7) mod 12\<close>,
  \<open>modulate('subdominant')\<close> moves it to \<open>(r + 5) mod 12\<close>, and a dominant modulation
  followed by a subdominant one gives the root back, for every pitch class 0 to 11.
\<close>

theorem dominant_then_subdominant:
  "rootNote h = Some r \<Longrightarrow> 0 \<le> r \<Longrightarrow> r < 12 \<Longrightarrow>
   rootNote (modulate Dominant h) = Some ((r + 7) mod 12) \<and>
   rootNote (modulate Subdominant h) = Some ((r + 5) mod 12) \<and>
   rootNote (modulate Subdominant (modulate Dominant h)) = Some r"
  by (simp add: modulateDominant_def modulateSubdominant_def rootNote_updateKeyName
      shiftRoot_def js_rem_def mod_add_left_eq)

theorem dominant_then_subdominant_witness:
  "rootNote (instance_of ''A'' ''minor'' 9 MODES_minor [Some 69, Some 72, Some 76]) = Some 9 \<and>
   (0::int) \<le> 9 \<and> (9::int) < 12 \<and>
   rootNote (modulate Dominant
     (instance_of ''A'' ''minor'' 9 MODES_minor [Some 69, Some 72, Some 76])) = Some 4 \<and>
   rootNote (modulate Subdominant
     (instance_of ''A'' ''minor'' 9 MODES_minor [Some 69, Some 72, Some 76])) = Some 2 \<and>
   rootNote (modulate Subdominant (modulate Dominant
     (instance_of ''A'' ''minor'' 9 MODES_minor [Some 69, Some 72, Some 76]))) = Some 9"
  using dominant_then_subdominant
    [of "instance_of ''A'' ''minor'' 9 MODES_minor [Some 69, Some 72, Some 76]" 9]
  by (simp add: instance_of_def)

text \<open>
  C10. The claim: every name lookup falls back to its default and \<open>setKey\<close> never raises.
  The code at the mode name \<open>constructor\<close>: \<open>MODES['constructor']\<close> is the member every
  object inherits, not \<open>undefined\<close>, so \<open>??\<close> keeps it; it has no \<open>intervals\<close>, the scale
  becomes \<open>undefined\<close>, and building the tonic chord throws a \<open>TypeError\<close> out of \<open>setKey\<close>
  with mode and scale already overwritten. The same name as a root gives no pitch class,
  and as a chord label it gives three notes that are not numbers instead of the tonic.
\<close>

theorem setKey_inherited_name_throws:
  "setKey ''C'' ''constructor'' c_major
     = Inl (TypeError, c_major\<lparr>mode := ''constructor'', scale := None\<rparr>) \<and>
   lookupRoot ''constructor'' = None \<and>
   buildChord c_major ''constructor'' 4 = Inr [None, None, None]"
  by (simp add: setKey_def lookupRoot_def lookupIntervals_def chord_defs js_defs table_defs
      example_defs)

text \<open>
  C5, as stated: in the unlocked state every operation, \<open>setScale\<close> and \<open>modulate\<close>
  included, leaves a stored chord that is the triad of some chord degree over the current
  root and scale. Three states refute it. After \<open>setScale([0,1,2,3,4,5,6])\<close> in C major
  the stored chord is still 60, 64, 67, which no label and no octave builds over the new
  scale. C major holding the chord of \<open>ii\<close> (62, 65, 69, built by \<open>buildChord\<close>) is
  modulated to the dominant: no label and no octave builds that chord in G major. And
  \<open>setChord([1, 2, 3])\<close> stores pitches that are no triad of C major.
\<close>

theorem chord_not_always_reconstructible:
  "\<not> (\<exists>roman oct. buildChord (setScale [0, 1, 2, 3, 4, 5, 6] c_major) roman oct
          = Inr (chord (setScale [0, 1, 2, 3, 4, 5, 6] c_major))) \<and>
   buildChord c_major_ii ''ii'' 4 = Inr (chord c_major_ii) \<and>
   \<not> (\<exists>roman oct. buildChord (modulate Dominant c_major_ii) roman oct
          = Inr (chord (modulate Dominant c_major_ii))) \<and>
   \<not> (\<exists>roman oct. buildChord (setChord [Some 1, Some 2, Some 3] c_major) roman oct
          = Inr (chord (setChord [Some 1, Some 2, Some 3] c_major)))"
proof -
  have a: "chord (setScale [0, 1, 2, 3, 4, 5, 6] c_major) = [Some 60, Some 64, Some 67]"
    by (simp add: setScale_def example_defs)
  have b: "chord (modulateDominant c_major_ii) = [Some 62, Some 65, Some 69]"
    by (simp add: modulated_ii instance_of_def)
  have c: "chord (setChord [Some 1, Some 2, Some 3] c_major) = [Some 1, Some 2, Some 3]"
    by (simp add: setChord_def)
  have d: "buildChord c_major_ii ''ii'' 4 = Inr (chord c_major_ii)"
    by (simp add: chord_defs js_defs table_defs example_defs)
  have na: "buildChord (setScale [0, 1, 2, 3, 4, 5, 6] c_major) roman oct
              \<noteq> Inr [Some 60, Some 64, Some 67]" for roman oct
    using buildChord_cases no_triad_after_setScale by blast
  have nb: "buildChord (modulate Dominant c_major_ii) roman oct
              \<noteq> Inr [Some 62, Some 65, Some 69]" for roman oct
    using buildChord_cases no_triad_after_modulate by blast
  have nc: "buildChord (setChord [Some 1, Some 2, Some 3] c_major) roman oct
              \<noteq> Inr [Some 1, Some 2, Some 3]" for roman oct
    using buildChord_cases no_triad_after_setChord by blast
  show ?thesis
    using d na nb nc by (simp add: a b c)
qed

text \<open>
  C5, amended: in the unlocked state the two operations that derive a chord store the
  triad stacked on scale degrees \<open>d\<close>, \<open>d + 2\<close>, \<open>d + 4\<close> of the current root and scale,
  each pitch being the closed form \<open>scaleNote_formula\<close> of root, scale, degree and octave.
  \<open>setKey\<close>, for a root name and a mode name that are not names of inherited members,
  resolves a root pitch class 0 to 11 and a non-empty scale, returns, and stores the triad
  of degree 0 in octave 4 over them. \<open>setChordFromRoman\<close>, on a non-empty scale and a
  numeric root and for a label that is not the name of an inherited member, returns and
  stores the triad of the label's degree (0 to 6; degree 0 for a label the table does not
  know) in the given octave; in the locked state it changes nothing. \<open>setChord\<close> stores
  exactly the pitches it is given and nothing else, locked or not.
\<close>

theorem chord_derivation_unlocked:
  "(\<not> isLocked h \<and> obj_get NOTE_MAP k \<noteq> Inherited \<and> obj_get MODES m \<noteq> Inherited \<longrightarrow>
      (\<exists>r sc. lookupRoot k = Some r \<and> 0 \<le> r \<and> r < 12 \<and>
         lookupIntervals m = Some sc \<and> sc \<noteq> [] \<and>
         setKey k m h =
           Inr (h\<lparr>rootNote := Some r, key := k, mode := m, scale := Some sc,
                 chord := [Some (scaleNote_formula r sc 0 4), Some (scaleNote_formula r sc 2 4),
                           Some (scaleNote_formula r sc 4 4)]\<rparr>))) \<and>
   (\<not> isLocked h \<and> scale h = Some sc' \<and> sc' \<noteq> [] \<and> rootNote h = Some r' \<and>
    obj_get ROMAN_TO_DEGREE roman \<noteq> Inherited \<longrightarrow>
      (\<exists>d. 0 \<le> d \<and> d \<le> 6 \<and>
         (obj_get ROMAN_TO_DEGREE roman = Undefined \<longrightarrow> d = 0) \<and>
         (\<forall>d' t. obj_get ROMAN_TO_DEGREE roman = Own (d', t) \<longrightarrow> d = d') \<and>
         setChordFromRoman roman oct h =
           Inr (h\<lparr>chord := [Some (scaleNote_formula r' sc' d oct),
                             Some (scaleNote_formula r' sc' (d + 2) oct),
                             Some (scaleNote_formula r' sc' (d + 4) oct)]\<rparr>))) \<and>
   (isLocked h \<longrightarrow> setChordFromRoman roman oct h = Inr h) \<and>
   setChord pitches h = h\<lparr>chord := pitches\<rparr> \<and>
   chord (setChord pitches h) = pitches \<and>
   isLocked (setChord pitches h) = isLocked h"
proof -
  have a: "\<exists>r sc. lookupRoot k = Some r \<and> 0 \<le> r \<and> r < 12 \<and>
         lookupIntervals m = Some sc \<and> sc \<noteq> [] \<and>
         setKey k m h =
           Inr (h\<lparr>rootNote := Some r, key := k, mode := m, scale := Some sc,
                 chord := [Some (scaleNote_formula r sc 0 4), Some (scaleNote_formula r sc 2 4),
                           Some (scaleNote_formula r sc 4 4)]\<rparr>)"
    if "\<not> isLocked h" "obj_get NOTE_MAP k \<noteq> Inherited" "obj_get MODES m \<noteq> Inherited"
  proof -
    from that(2) obtain r where r: "lookupRoot k = Some r" "0 \<le> r" "r < 12"
      using lookupRoot_pitch_class by blast
    from that(3) obtain sc where sc: "lookupIntervals m = Some sc" "sc \<noteq> []"
      using lookupIntervals_mode by blast
    from setKey_stores_tonic [OF that(1) r(1) sc] r sc show ?thesis by blast
  qed
  have b: "\<exists>d. 0 \<le> d \<and> d \<le> 6 \<and>
         (obj_get ROMAN_TO_DEGREE roman = Undefined \<longrightarrow> d = 0) \<and>
         (\<forall>d' t. obj_get ROMAN_TO_DEGREE roman = Own (d', t) \<longrightarrow> d = d') \<and>
         setChordFromRoman roman oct h =
           Inr (h\<lparr>chord := [Some (scaleNote_formula r' sc' d oct),
                             Some (scaleNote_formula r' sc' (d + 2) oct),
                             Some (scaleNote_formula r' sc' (d + 4) oct)]\<rparr>)"
    if h: "\<not> isLocked h" "scale h = Some sc'" "sc' \<noteq> []" "rootNote h = Some r'"
      and n: "obj_get ROMAN_TO_DEGREE roman \<noteq> Inherited"
  proof (cases "obj_get ROMAN_TO_DEGREE roman")
    case (Own info)
    obtain d t where info: "info = (d, t)" by (cases info)
    have own: "obj_get ROMAN_TO_DEGREE roman = Own (d, t)" using Own info by simp
    have rng: "0 \<le> d" "d \<le> 6" using roman_degree [OF own] by auto
    have "setChordFromRoman roman oct h =
           Inr (h\<lparr>chord := [Some (scaleNote_formula r' sc' d oct),
                             Some (scaleNote_formula r' sc' (d + 2) oct),
                             Some (scaleNote_formula r' sc' (d + 4) oct)]\<rparr>)"
      using h(1) buildChord_own [OF own h(2,3,4)] by (simp add: setChordFromRoman_def)
    with rng own show ?thesis by auto
  next
    case Inherited
    with n show ?thesis by simp
  next
    case Undefined
    have "setChordFromRoman roman oct h =
           Inr (h\<lparr>chord := [Some (scaleNote_formula r' sc' 0 oct),
                             Some (scaleNote_formula r' sc' (0 + 2) oct),
                             Some (scaleNote_formula r' sc' (0 + 4) oct)]\<rparr>)"
      using h(1) buildChord_unknown [OF Undefined h(2,3,4)] by (simp add: setChordFromRoman_def)
    with Undefined show ?thesis by auto
  qed
  have c: "isLocked h \<longrightarrow> setChordFromRoman roman oct h = Inr h"
    by (simp add: setChordFromRoman_def)
  have d: "setChord pitches h = h\<lparr>chord := pitches\<rparr>" "chord (setChord pitches h) = pitches"
    "isLocked (setChord pitches h) = isLocked h"
    by (simp_all add: setChord_def)
  from a b c d show ?thesis by blast
qed

theorem chord_derivation_unlocked_witness:
  "\<not> isLocked c_major \<and> obj_get NOTE_MAP ''A'' \<noteq> Inherited \<and>
   obj_get MODES ''minor'' \<noteq> Inherited \<and>
   scale c_major = Some MODES_major \<and> MODES_major \<noteq> [] \<and> rootNote c_major = Some 0 \<and>
   obj_get ROMAN_TO_DEGREE ''ii'' \<noteq> Inherited \<and>
   isLocked (lockHarmony c_major) \<and>
   setKey ''A'' ''minor'' c_major
     = Inr (instance_of ''A'' ''minor'' 9 MODES_minor [Some 69, Some 72, Some 76]) \<and>
   setChordFromRoman ''ii'' 4 c_major = Inr c_major_ii \<and>
   setChordFromRoman ''ii'' 4 (lockHarmony c_major) = Inr (lockHarmony c_major) \<and>
   chord (setChord [Some 1, Some 2, Some 3] (lockHarmony c_major)) = [Some 1, Some 2, Some 3] \<and>
   (\<exists>r sc. lookupRoot ''A'' = Some r \<and> lookupIntervals ''minor'' = Some sc \<and>
         setKey ''A'' ''minor'' c_major =
           Inr (c_major\<lparr>rootNote := Some r, key := ''A'', mode := ''minor'', scale := Some sc,
                 chord := [Some (scaleNote_formula r sc 0 4), Some (scaleNote_formula r sc 2 4),
                           Some (scaleNote_formula r sc 4 4)]\<rparr>))"
proof -
  have h1: "\<not> isLocked c_major" by (simp add: example_defs)
  have h2: "obj_get NOTE_MAP ''A'' \<noteq> Inherited" by (simp add: obj_get_def NOTE_MAP_def)
  have h3: "obj_get MODES ''minor'' \<noteq> Inherited" by (simp add: obj_get_def MODES_def)
  have h4: "scale c_major = Some MODES_major" by (simp add: example_defs)
  have h5: "MODES_major \<noteq> []" by (simp add: MODES_major_def)
  have h6: "rootNote c_major = Some 0" by (simp add: example_defs)
  have h7: "obj_get ROMAN_TO_DEGREE ''ii'' \<noteq> Inherited"
    by (simp add: obj_get_def ROMAN_TO_DEGREE_def)
  have h8: "isLocked (lockHarmony c_major)" by (simp add: lockHarmony_def)
  have e1: "setKey ''A'' ''minor'' c_major
     = Inr (instance_of ''A'' ''minor'' 9 MODES_minor [Some 69, Some 72, Some 76])"
    by (simp add: setKey_def lookupRoot_def lookupIntervals_def chord_defs js_defs table_defs
      example_defs)
  have e2: "setChordFromRoman ''ii'' 4 c_major = Inr c_major_ii"
    by (simp add: setChordFromRoman_def chord_defs js_defs table_defs example_defs)
  note t = chord_derivation_unlocked [where h = "lockHarmony c_major" and roman = "''ii''" and oct = 4
      and pitches = "[Some 1, Some 2, Some 3]"]
  from t h8 have e3: "setChordFromRoman ''ii'' 4 (lockHarmony c_major) = Inr (lockHarmony c_major)"
    by blast
  from t have e4:
    "chord (setChord [Some 1, Some 2, Some 3] (lockHarmony c_major)) = [Some 1, Some 2, Some 3]"
    by blast
  from chord_derivation_unlocked [where h = c_major and k = "''A''" and m = "''minor''" and roman = "''ii''"
      and oct = 4 and sc' = MODES_major and r' = 0] h1 h2 h3 h4 h5 h6 h7
  have e5: "\<exists>r sc. lookupRoot ''A'' = Some r \<and> lookupIntervals ''minor'' = Some sc \<and>
         setKey ''A'' ''minor'' c_major =
           Inr (c_major\<lparr>rootNote := Some r, key := ''A'', mode := ''minor'', scale := Some sc,
                 chord := [Some (scaleNote_formula r sc 0 4), Some (scaleNote_formula r sc 2 4),
                           Some (scaleNote_formula r sc 4 4)]\<rparr>)"
    by blast
  from h1 h2 h3 h4 h5 h6 h7 h8 e1 e2 e3 e4 e5 show ?thesis by blast
qed

text \<open>
  C6. After \<open>lockHarmony()\<close>, and after any further calls among which there is no
  \<open>unlockHarmony()\<close>, a \<open>setKey(root, mode)\<close> returns normally, sets root, key name, mode and
  scale from its arguments and leaves the stored chord as it was. Once \<open>unlockHarmony()\<close>
  has been called, a \<open>setKey\<close> that returns stores the tonic triad of the new key again.
\<close>

theorem locked_setKey_keeps_chord:
  assumes "UnlockHarmony \<notin> set ops"
  shows "setKey k m (fold apply_op ops (lockHarmony h))
           = Inr ((fold apply_op ops (lockHarmony h))
                    \<lparr>rootNote := lookupRoot k, key := k, mode := m,
                     scale := lookupIntervals m\<rparr>) \<and>
         chord (apply_op (SetKey k m) (fold apply_op ops (lockHarmony h)))
           = chord (fold apply_op ops (lockHarmony h)) \<and>
         (\<forall>h'. setKey k m (unlockHarmony (fold apply_op ops (lockHarmony h))) = Inr h'
            \<longrightarrow> Inr (chord h') = buildChord h' ''I'' 4)"
proof -
  have "isLocked (lockHarmony h)" by (simp add: lockHarmony_def)
  then have locked: "isLocked (fold apply_op ops (lockHarmony h))"
    using assms by (rule isLocked_fold)
  have "\<not> isLocked (unlockHarmony (fold apply_op ops (lockHarmony h)))"
    by (simp add: unlockHarmony_def)
  then show ?thesis
    using setKey_locked [OF locked] setKey_unlocked_chord by simp
qed

theorem locked_setKey_keeps_chord_witness:
  "UnlockHarmony \<notin> set [Modulate Relative, SetScale [0, 2, 4], SetChordFromRoman ''V'' 4] \<and>
   chord (apply_op (SetKey ''D'' ''dorian'')
            (fold apply_op [Modulate Relative, SetScale [0, 2, 4], SetChordFromRoman ''V'' 4]
               (lockHarmony c_major)))
     = [Some 60, Some 64, Some 67] \<and>
   scale (apply_op (SetKey ''D'' ''dorian'')
            (fold apply_op [Modulate Relative, SetScale [0, 2, 4], SetChordFromRoman ''V'' 4]
               (lockHarmony c_major)))
     = Some [0, 2, 3, 5, 7, 9, 10] \<and>
   rootNote (apply_op (SetKey ''D'' ''dorian'')
            (fold apply_op [Modulate Relative, SetScale [0, 2, 4], SetChordFromRoman ''V'' 4]
               (lockHarmony c_major)))
     = Some 2 \<and>
   chord (apply_op (SetKey ''D'' ''dorian'')
            (unlockHarmony
               (fold apply_op [Modulate Relative, SetScale [0, 2, 4], SetChordFromRoman ''V'' 4]
                  (lockHarmony c_major))))
     = [Some 62, Some 65, Some 69]"
proof -
  have h: "UnlockHarmony \<notin> set [Modulate Relative, SetScale [0, 2, 4], SetChordFromRoman ''V'' 4]"
    by simp
  have e1: "chord (fold apply_op [Modulate Relative, SetScale [0, 2, 4], SetChordFromRoman ''V'' 4]
               (lockHarmony c_major)) = [Some 60, Some 64, Some 67]"
    by code_simp
  have e2: "scale (apply_op (SetKey ''D'' ''dorian'')
            (fold apply_op [Modulate Relative, SetScale [0, 2, 4], SetChordFromRoman ''V'' 4]
               (lockHarmony c_major)))
     = Some [0, 2, 3, 5, 7, 9, 10]"
    by code_simp
  have e3: "rootNote (apply_op (SetKey ''D'' ''dorian'')
            (fold apply_op [Modulate Relative, SetScale [0, 2, 4], SetChordFromRoman ''V'' 4]
               (lockHarmony c_major)))
     = Some 2"
    by code_simp
  have e4: "chord (apply_op (SetKey ''D'' ''dorian'')
            (unlockHarmony
               (fold apply_op [Modulate Relative, SetScale [0, 2, 4], SetChordFromRoman ''V'' 4]
                  (lockHarmony c_major))))
     = [Some 62, Some 65, Some 69]"
    by code_simp
  from locked_setKey_keeps_chord [OF h, of "''D''" "''dorian''" c_major]
  have "chord (apply_op (SetKey ''D'' ''dorian'')
            (fold apply_op [Modulate Relative, SetScale [0, 2, 4], SetChordFromRoman ''V'' 4]
               (lockHarmony c_major)))
     = chord (fold apply_op [Modulate Relative, SetScale [0, 2, 4], SetChordFromRoman ''V'' 4]
               (lockHarmony c_major))"
    by blast
  with h e1 e2 e3 e4 show ?thesis by simp
qed

section \<open>Facts about the synth engine\<close>

subsection \<open>The loop of \<open>stealVoice\<close>\<close>

lemma steal_fold_acc:
  "\<exists>k t. fold steal_step xs (Some k0, Some t0) = (Some k, Some t) \<and> t \<le> t0 \<and>
     (\<forall>e \<in> set xs. t \<le> startTime (snd e)) \<and>
     ((k = k0 \<and> t = t0) \<or> (\<exists>v. (k, v) \<in> set xs \<and> startTime v = t))"
proof (induction xs arbitrary: k0 t0)
  case Nil
  then show ?case by simp
next
  case (Cons x xs)
  show ?case
  proof (cases "startTime (snd x) < t0")
    case True
    from Cons.IH [of "fst x" "startTime (snd x)"] obtain k t where
      kt: "fold steal_step xs (Some (fst x), Some (startTime (snd x))) = (Some k, Some t)"
        "t \<le> startTime (snd x)" "\<forall>e \<in> set xs. t \<le> startTime (snd e)"
        "(k = fst x \<and> t = startTime (snd x)) \<or> (\<exists>v. (k, v) \<in> set xs \<and> startTime v = t)"
      by blast
    have step: "fold steal_step (x # xs) (Some k0, Some t0)
                  = fold steal_step xs (Some (fst x), Some (startTime (snd x)))"
      using True by (simp add: steal_step_def)
    from kt(4) have ex: "\<exists>v. (k, v) \<in> set (x # xs) \<and> startTime v = t"
      by (metis list.set_intros(1) list.set_intros(2) prod.collapse)
    have le: "t \<le> t0" using kt(2) True by simp
    have all: "\<forall>e \<in> set (x # xs). t \<le> startTime (snd e)"
      using kt(2,3) by simp
    show ?thesis
      unfolding step using kt(1) le all ex by blast
  next
    case False
    from Cons.IH [of k0 t0] obtain k t where
      kt: "fold steal_step xs (Some k0, Some t0) = (Some k, Some t)"
        "t \<le> t0" "\<forall>e \<in> set xs. t \<le> startTime (snd e)"
        "(k = k0 \<and> t = t0) \<or> (\<exists>v. (k, v) \<in> set xs \<and> startTime v = t)"
      by blast
    have step: "fold steal_step (x # xs) (Some k0, Some t0)
                  = fold steal_step xs (Some k0, Some t0)"
      using False by (simp add: steal_step_def)
    have all: "\<forall>e \<in> set (x # xs). t \<le> startTime (snd e)"
      using kt(2,3) False by simp
    from kt(4) have ex:
      "(k = k0 \<and> t = t0) \<or> (\<exists>v. (k, v) \<in> set (x # xs) \<and> startTime v = t)"
      by auto
    show ?thesis
      unfolding step using kt(1,2) all ex by blast
  qed
qed

lemma steal_fold_oldest:
  assumes "xs \<noteq> []"
  shows "\<exists>k v. fst (fold steal_step xs (None, None)) = Some k \<and> (k, v) \<in> set xs \<and>
           (\<forall>e \<in> set xs. startTime v \<le> startTime (snd e))"
proof -
  from assms obtain x ys where xs: "xs = x # ys" by (cases xs) auto
  from steal_fold_acc [of ys "fst x" "startTime (snd x)"] obtain k t where
    kt: "fold steal_step ys (Some (fst x), Some (startTime (snd x))) = (Some k, Some t)"
      "t \<le> startTime (snd x)" "\<forall>e \<in> set ys. t \<le> startTime (snd e)"
      "(k = fst x \<and> t = startTime (snd x)) \<or> (\<exists>v. (k, v) \<in> set ys \<and> startTime v = t)"
    by blast
  from kt(4) obtain v where v: "(k, v) \<in> set xs" "startTime v = t"
    unfolding xs by (metis list.set_intros(1) list.set_intros(2) prod.collapse)
  have "fst (fold steal_step xs (None, None)) = Some k"
    using kt(1) by (simp add: xs steal_step_def)
  moreover have "\<forall>e \<in> set xs. startTime v \<le> startTime (snd e)"
    using kt(2,3) v(2) by (simp add: xs)
  ultimately show ?thesis using v(1) by blast
qed

lemma stealVoice_oldest:
  assumes "activeVoices st \<noteq> []" "distinct (map fst (activeVoices st))"
    "[] \<notin> set (map fst (activeVoices st))"
  shows "\<exists>k v. map_of (activeVoices st) k = Some v \<and>
           (\<forall>e \<in> set (activeVoices st). startTime v \<le> startTime (snd e)) \<and>
           stealVoice now st =
             st\<lparr>backend := backend st @ [TriggerRelease (synth v) (now + 0.05)],
                timers := timers st @ [(1050, k)]\<rparr>"
proof -
  from steal_fold_oldest [OF assms(1)] obtain k v where
    kv: "fst (fold steal_step (activeVoices st) (None, None)) = Some k"
      "(k, v) \<in> set (activeVoices st)"
      "\<forall>e \<in> set (activeVoices st). startTime v \<le> startTime (snd e)"
    by blast
  from kv(2) assms(2) have m: "map_of (activeVoices st) k = Some v"
    by simp
  from kv(2) assms(3) have "k \<noteq> []"
    by force
  with kv(1) m have "stealVoice now st =
             st\<lparr>backend := backend st @ [TriggerRelease (synth v) (now + 0.05)],
                timers := timers st @ [(1050, k)]\<rparr>"
    by (simp add: stealVoice_def stopNote_def)
  with m kv(3) show ?thesis by blast
qed

subsection \<open>What stopping and stealing leave alone\<close>

lemma activeVoices_stopNote: "activeVoices (stopNote now i t st) = activeVoices st"
  by (simp add: stopNote_def split: option.splits)

lemma activeVoices_stealVoice: "activeVoices (stealVoice now st) = activeVoices st"
  by (simp add: stealVoice_def activeVoices_stopNote split: option.splits)

lemma map_of_map_delete: "map_of (map_delete k xs) k = None"
  by (induction xs) auto

text \<open>
  An unregistered voice name: the empty string comes back and neither the registry nor the
  id counter changes; below the ceiling, and on an engine that is not initialised, nothing
  changes at all.
\<close>

lemma playNote_unregistered:
  assumes "\<not> List.member (voices st) name"
  shows "fst (playNote ts now n vel dur name st) = []"
    and "activeVoices (snd (playNote ts now n vel dur name st)) = activeVoices st"
    and "nextVoiceId (snd (playNote ts now n vel dur name st)) = nextVoiceId st"
    and "\<not> polyphony st \<le> int (length (activeVoices st)) \<or> \<not> isInitialized st
           \<Longrightarrow> playNote ts now n vel dur name st = ([], st)"
proof -
  have v: "voices (stealVoice now st) = voices st"
    by (simp add: stealVoice_def stopNote_def split: option.splits)
  have i: "nextVoiceId (stealVoice now st) = nextVoiceId st"
    by (simp add: stealVoice_def stopNote_def split: option.splits)
  show "fst (playNote ts now n vel dur name st) = []"
    using assms v by (simp add: playNote_def Let_def)
  show "activeVoices (snd (playNote ts now n vel dur name st)) = activeVoices st"
    using assms v by (simp add: playNote_def Let_def activeVoices_stealVoice)
  show "nextVoiceId (snd (playNote ts now n vel dur name st)) = nextVoiceId st"
    using assms v i by (simp add: playNote_def Let_def)
  show "playNote ts now n vel dur name st = ([], st)"
    if "\<not> polyphony st \<le> int (length (activeVoices st)) \<or> \<not> isInitialized st"
    using assms that by (auto simp: playNote_def Let_def)
qed

subsection \<open>Claims\<close>

text \<open>
  C1. The claim: the registry of active voices never holds more voices than the polyphony
  ceiling. The code with ceiling 2 and sustained notes at times 0, 1, 2 and 3, no timer
  having fired: the third call releases the oldest voice and schedules its cleanup, but the
  voice stays in the registry until that timer fires, so the registry holds three voices.
  The fourth call finds the same oldest voice and releases it once more: the registry
  holds four voices, and the voices 1, 2 and 3 are sounding without any release.
\<close>

theorem polyphony_ceiling_exceeded:
  "polyphony (ready_engine 2) = 2 \<and>
   map fst (activeVoices (sustain 2 64 (sustain 1 62 (sustain 0 60 (ready_engine 2)))))
     = [''voice_0'', ''voice_1'', ''voice_2''] \<and>
   getActiveVoiceCount (sustain 2 64 (sustain 1 62 (sustain 0 60 (ready_engine 2)))) = 3 \<and>
   timers (sustain 2 64 (sustain 1 62 (sustain 0 60 (ready_engine 2))))
     = [(1050, ''voice_0'')] \<and>
   map fst (activeVoices
       (sustain 3 65 (sustain 2 64 (sustain 1 62 (sustain 0 60 (ready_engine 2))))))
     = [''voice_0'', ''voice_1'', ''voice_2'', ''voice_3''] \<and>
   backend (sustain 3 65 (sustain 2 64 (sustain 1 62 (sustain 0 60 (ready_engine 2)))))
     = [Create 0 ''synth'', Connect 0, TriggerAttack 0 60 0 0.7,
        Create 1 ''synth'', Connect 1, TriggerAttack 1 62 1 0.7,
        TriggerRelease 0 2.05, Create 2 ''synth'', Connect 2, TriggerAttack 2 64 2 0.7,
        TriggerRelease 0 3.05, Create 3 ''synth'', Connect 3, TriggerAttack 3 65 3 0.7]"
  by code_simp

text \<open>
  C7. The claim: \<open>playNote\<close> with an unregistered voice name is a no-op that returns the
  empty string and leaves every existing voice unchanged. The code at the ceiling (ceiling
  1, one sustained voice) and the name \<open>nope\<close>: the empty string is returned and no record
  is created, but the ceiling check runs before the name is looked up, so the sounding
  voice has been released and its cleanup scheduled.
\<close>

theorem unregistered_voice_steals:
  "playNote notation_seconds 1 64 0.7 None ''nope'' one_voice
     = ([], one_voice\<lparr>backend := backend one_voice @ [TriggerRelease 0 1.05],
                      timers := timers one_voice @ [(1050, ''voice_0'')]\<rparr>)"
  by code_simp

text \<open>
  C2. When \<open>playNote\<close> finds the registry at the ceiling (initialised engine, at least one
  active voice, ids distinct and not empty, as \<open>playNote\<close> creates them), exactly one voice
  is released: one whose \<open>startTime\<close> is smallest among the active voices. It is released
  at \<open>now + 0.05\<close>, less than the default release time 0.1, its cleanup is scheduled, and
  this happens before anything is done for the new voice: every later backend event of
  the call belongs to the new synth and none of them is a release. With voices allocated
  at 5, 2 and 9 (the witness) the voice allocated at 2 is the one released, and it leaves
  the registry when its timer fires.
\<close>

theorem stealing_releases_oldest:
  assumes "isInitialized st" "polyphony st \<le> int (length (activeVoices st))"
    "activeVoices st \<noteq> []" "distinct (map fst (activeVoices st))"
    "[] \<notin> set (map fst (activeVoices st))"
  shows "\<exists>k v evs tms. map_of (activeVoices st) k = Some v \<and>
           (\<forall>e \<in> set (activeVoices st). startTime v \<le> startTime (snd e)) \<and>
           backend (snd (playNote ts now n vel dur name st))
             = backend st @ TriggerRelease (synth v) (now + 0.05) # evs \<and>
           (\<forall>s t. TriggerRelease s t \<notin> set evs) \<and>
           (\<forall>e \<in> set evs. \<exists>a b c d.
              e = Create (nextVoiceId st) name \<or> e = Connect (nextVoiceId st) \<or>
              e = TriggerAttack (nextVoiceId st) a b c \<or>
              e = TriggerAttackRelease (nextVoiceId st) a d b c) \<and>
           timers (snd (playNote ts now n vel dur name st)) = timers st @ (1050, k) # tms \<and>
           (0.05::real) < stopNote_default_releaseTime"
proof -
  from stealVoice_oldest [OF assms(3,4,5), of now] obtain k v where
    kv: "map_of (activeVoices st) k = Some v"
      "\<forall>e \<in> set (activeVoices st). startTime v \<le> startTime (snd e)"
      "stealVoice now st =
             st\<lparr>backend := backend st @ [TriggerRelease (synth v) (now + 0.05)],
                timers := timers st @ [(1050, k)]\<rparr>"
    by blast
  define evs where "evs =
    (if List.member (voices st) name then
       [Create (nextVoiceId st) name, Connect (nextVoiceId st),
        (case dur of Some d \<Rightarrow> TriggerAttackRelease (nextVoiceId st) n d now vel
         | None \<Rightarrow> TriggerAttack (nextVoiceId st) n now vel)]
     else [])"
  define tms where "tms =
    (if List.member (voices st) name then
       (case dur of
          Some d \<Rightarrow> [(durationSeconds ts d * 1000 + 100, voiceId_of (nextVoiceId st))]
        | None \<Rightarrow> [])
     else [])"
  have b: "backend (snd (playNote ts now n vel dur name st))
             = backend st @ TriggerRelease (synth v) (now + 0.05) # evs"
    using assms(1,2) kv(3)
    by (simp add: playNote_def Let_def evs_def split: option.splits)
  have t: "timers (snd (playNote ts now n vel dur name st)) = timers st @ (1050, k) # tms"
    using assms(1,2) kv(3)
    by (simp add: playNote_def Let_def tms_def split: option.splits)
  have r: "\<forall>s t. TriggerRelease s t \<notin> set evs"
    by (simp add: evs_def split: option.splits)
  have e: "\<forall>e \<in> set evs. \<exists>a b c d.
              e = Create (nextVoiceId st) name \<or> e = Connect (nextVoiceId st) \<or>
              e = TriggerAttack (nextVoiceId st) a b c \<or>
              e = TriggerAttackRelease (nextVoiceId st) a d b c"
    by (auto simp: evs_def split: option.splits)
  have "(0.05::real) < stopNote_default_releaseTime"
    by (simp add: stopNote_default_releaseTime_def)
  with kv(1,2) b r e t show ?thesis by blast
qed

theorem stealing_releases_oldest_witness:
  "isInitialized three_voices \<and>
   polyphony three_voices \<le> int (length (activeVoices three_voices)) \<and>
   activeVoices three_voices \<noteq> [] \<and>
   distinct (map fst (activeVoices three_voices)) \<and>
   [] \<notin> set (map fst (activeVoices three_voices)) \<and>
   map (\<lambda>e. startTime (snd e)) (activeVoices three_voices) = [5, 2, 9] \<and>
   map_option startTime (map_of (activeVoices three_voices) ''voice_1'') = Some 2 \<and>
   backend (snd (playNote notation_seconds 10 72 0.7 None ''synth'' three_voices))
     = backend three_voices
         @ [TriggerRelease 1 10.05, Create 3 ''synth'', Connect 3, TriggerAttack 3 72 10 0.7] \<and>
   timers (snd (playNote notation_seconds 10 72 0.7 None ''synth'' three_voices))
     = [(1050, ''voice_1'')] \<and>
   map fst (activeVoices
     (fireTimer 0 (snd (playNote notation_seconds 10 72 0.7 None ''synth'' three_voices))))
     = [''voice_0'', ''voice_2'', ''voice_3''] \<and>
   (\<exists>k v evs. map_of (activeVoices three_voices) k = Some v \<and>
      backend (snd (playNote notation_seconds 10 72 0.7 None ''synth'' three_voices))
        = backend three_voices @ TriggerRelease (synth v) (10 + 0.05) # evs)"
proof -
  have h1: "isInitialized three_voices" by code_simp
  have h2: "polyphony three_voices \<le> int (length (activeVoices three_voices))" by code_simp
  have h3: "activeVoices three_voices \<noteq> []" by code_simp
  have h4: "distinct (map fst (activeVoices three_voices))" by code_simp
  have h5: "[] \<notin> set (map fst (activeVoices three_voices))" by code_simp
  have e1: "map (\<lambda>e. startTime (snd e)) (activeVoices three_voices) = [5, 2, 9]" by code_simp
  have e2: "map_option startTime (map_of (activeVoices three_voices) ''voice_1'') = Some 2"
    by code_simp
  have e3: "backend (snd (playNote notation_seconds 10 72 0.7 None ''synth'' three_voices))
     = backend three_voices
         @ [TriggerRelease 1 10.05, Create 3 ''synth'', Connect 3, TriggerAttack 3 72 10 0.7]"
    by code_simp
  have e4: "timers (snd (playNote notation_seconds 10 72 0.7 None ''synth'' three_voices))
     = [(1050, ''voice_1'')]"
    by code_simp
  have e5: "map fst (activeVoices
     (fireTimer 0 (snd (playNote notation_seconds 10 72 0.7 None ''synth'' three_voices))))
     = [''voice_0'', ''voice_2'', ''voice_3'']"
    by code_simp
  from stealing_releases_oldest [OF h1 h2 h3 h4 h5, where ts = notation_seconds and now = 10
      and n = 72 and vel = "0.7" and dur = None and name = "''synth''"]
  have "\<exists>k v evs. map_of (activeVoices three_voices) k = Some v \<and>
      backend (snd (playNote notation_seconds 10 72 0.7 None ''synth'' three_voices))
        = backend three_voices @ TriggerRelease (synth v) (10 + 0.05) # evs"
    by blast
  with h1 h2 h3 h4 h5 e1 e2 e3 e4 e5 show ?thesis by blast
qed

text \<open>
  C8, as stated: a second \<open>stopNote(id, t)\<close> in a row has no effect beyond the first, and
  \<open>stopNote\<close> on an already-stopped id is a no-op. With one sustained voice that was just
  stopped and whose cleanup timer has not fired, the second \<open>stopNote\<close> sends a second
  \<open>triggerRelease\<close> to the synth (and schedules a second cleanup): the state after two
  calls differs from the state after one.
\<close>

theorem stopNote_twice_differs:
  "stopNote 1 ''voice_0'' 0.1 (stopNote 1 ''voice_0'' 0.1 one_voice)
     \<noteq> stopNote 1 ''voice_0'' 0.1 one_voice \<and>
   backend (stopNote 1 ''voice_0'' 0.1 (stopNote 1 ''voice_0'' 0.1 one_voice))
     = backend (stopNote 1 ''voice_0'' 0.1 one_voice) @ [TriggerRelease 0 1.1]"
proof -
  have "backend (stopNote 1 ''voice_0'' 0.1 (stopNote 1 ''voice_0'' 0.1 one_voice))
     = backend (stopNote 1 ''voice_0'' 0.1 one_voice) @ [TriggerRelease 0 1.1]"
    by code_simp
  then show ?thesis by force
qed

text \<open>
  C8, amended: \<open>stopNote\<close> on an id that is not in the registry (never allocated, or
  already cleaned up) is a no-op, and cleaning the same id up twice is a no-op the second
  time. \<open>stopNote\<close> never changes the registry, so two calls in a row leave the registry
  that one call leaves. On an id that is still registered the second call sends one more
  \<open>triggerRelease\<close> and schedules one more cleanup.
\<close>

theorem stopNote_stale_handles:
  "(map_of (activeVoices st) i = None \<longrightarrow> stopNote now i t st = st) \<and>
   stopNote now i t (cleanupVoice i st) = cleanupVoice i st \<and>
   cleanupVoice i (cleanupVoice i st) = cleanupVoice i st \<and>
   activeVoices (stopNote now i t st) = activeVoices st \<and>
   activeVoices (stopNote now i t (stopNote now i t st)) = activeVoices (stopNote now i t st) \<and>
   (\<forall>v. map_of (activeVoices st) i = Some v \<longrightarrow>
      stopNote now i t (stopNote now i t st) =
        (stopNote now i t st)
          \<lparr>backend := backend (stopNote now i t st) @ [TriggerRelease (synth v) (now + t)],
           timers := timers (stopNote now i t st) @ [((t + 1) * 1000, i)]\<rparr>)"
proof -
  have gone: "map_of (activeVoices (cleanupVoice i st)) i = None"
    by (simp add: cleanupVoice_def map_of_map_delete split: option.splits)
  have a: "map_of (activeVoices st) i = None \<longrightarrow> stopNote now i t st = st"
    by (simp add: stopNote_def)
  have b: "stopNote now i t (cleanupVoice i st) = cleanupVoice i st"
    using gone by (simp add: stopNote_def)
  have c: "cleanupVoice i (cleanupVoice i st) = cleanupVoice i st"
    using gone by (simp add: cleanupVoice_def)
  have d: "\<forall>v. map_of (activeVoices st) i = Some v \<longrightarrow>
      stopNote now i t (stopNote now i t st) =
        (stopNote now i t st)
          \<lparr>backend := backend (stopNote now i t st) @ [TriggerRelease (synth v) (now + t)],
           timers := timers (stopNote now i t st) @ [((t + 1) * 1000, i)]\<rparr>"
    by (simp add: stopNote_def)
  from a b c d show ?thesis by (simp add: activeVoices_stopNote)
qed

theorem stopNote_stale_handles_witness:
  "map_of (activeVoices one_voice) ''voice_9'' = None \<and>
   stopNote 1 ''voice_9'' 0.1 one_voice = one_voice \<and>
   map_option synth (map_of (activeVoices one_voice) ''voice_0'') = Some 0 \<and>
   backend (stopNote 1 ''voice_0'' 0.1 (stopNote 1 ''voice_0'' 0.1 one_voice))
     = backend one_voice @ [TriggerRelease 0 1.1, TriggerRelease 0 1.1] \<and>
   cleanupVoice ''voice_0'' (cleanupVoice ''voice_0'' one_voice)
     = cleanupVoice ''voice_0'' one_voice"
proof -
  have h: "map_of (activeVoices one_voice) ''voice_9'' = None" by code_simp
  have e1: "map_option synth (map_of (activeVoices one_voice) ''voice_0'') = Some 0"
    by code_simp
  have e2: "backend (stopNote 1 ''voice_0'' 0.1 (stopNote 1 ''voice_0'' 0.1 one_voice))
     = backend one_voice @ [TriggerRelease 0 1.1, TriggerRelease 0 1.1]"
    by code_simp
  from stopNote_stale_handles
    [where st = one_voice and i = "''voice_9''" and now = 1 and t = "0.1"] h
  have "stopNote 1 ''voice_9'' 0.1 one_voice = one_voice" by blast
  moreover from stopNote_stale_handles
    [where st = one_voice and i = "''voice_0''" and now = 1 and t = "0.1"]
  have "cleanupVoice ''voice_0'' (cleanupVoice ''voice_0'' one_voice)
          = cleanupVoice ''voice_0'' one_voice"
    by blast
  ultimately show ?thesis using h e1 e2 by blast
qed

end
